theory Spec2Isabelle
  imports Complex_Main
begin

section \<open>Shared Python vocabulary\<close>

text \<open>
  JSON-like values as they occur in the dictionaries the collector builds and the
  hub receives. A Python dict is an association list in insertion order; a lookup
  is \<open>map_of\<close>.
\<close>

datatype jvalue =
    JNull
  | JInt int
  | JFloat real
  | JStr string
  | JDict "(string \<times> jvalue) list"

type_synonym dict = "(string \<times> jvalue) list"


text \<open>
  Exceptions. \<open>KeyboardInterrupt\<close> and \<open>SystemExit\<close> derive from
  \<open>BaseException\<close> only; every other constructor stands for a subclass of
  \<open>Exception\<close>.
\<close>

datatype exn =
    KeyboardInterrupt
  | SystemExit
  | NoSuchProcess
  | AccessDenied
  | ZombieProcess
  | Timeout
  | ConnectionError
  | KeyError
  | RuntimeError
  | WebSocketDisconnect
  | InvalidFeatureVector
  | OtherException string

fun is_Exception :: "exn \<Rightarrow> bool" where
  "is_Exception KeyboardInterrupt = False"
| "is_Exception SystemExit = False"
| "is_Exception _ = True"

section \<open>Connection enumerator (backend/network_monitor.py)\<close>

text \<open>Decimal rendering of an integer, as \<open>str\<close> and f-strings do.\<close>

definition digit :: "nat \<Rightarrow> char" where
  "digit d = ''0123456789'' ! d"

function str_nat :: "nat \<Rightarrow> string" where
  "str_nat n = (if n < 10 then [digit n] else str_nat (n div 10) @ [digit (n mod 10)])"
  by pat_completeness auto
termination
  by (relation "measure (\<lambda>n. n)") auto

definition str_int :: "int \<Rightarrow> string" where
  "str_int i = (if i < 0 then CHR ''-'' # str_nat (nat (- i)) else str_nat (nat i))"

text \<open>
  One item of \<open>psutil.process_iter(['pid', 'name', 'exe'])\<close>: the prefetched
  \<open>info\<close> dictionary. \<open>exe\<close> and \<open>name\<close> may be \<open>None\<close> or empty.
\<close>

record proc_info =
  info_pid :: int
  info_name :: "string option"
  info_exe :: "string option"

text \<open>Python's \<open>a or b\<close> on optional strings: \<open>a\<close> when it is truthy, else \<open>b\<close>.\<close>

fun truthy :: "string option \<Rightarrow> bool" where
  "truthy None = False"
| "truthy (Some s) = (s \<noteq> [])"

definition py_or :: "string option \<Rightarrow> string option \<Rightarrow> string option" where
  "py_or a b = (if truthy a then a else b)"

text \<open>
  \<open>get_process_path_map\<close>. Each loop body either reads the item (\<open>Inr\<close>) or
  raises (\<open>Inl\<close>); the three psutil errors are caught and the item skipped, any
  other exception leaves the function.
\<close>

fun process_iter_loop :: "(int \<rightharpoonup> string) \<Rightarrow> (exn + proc_info) list \<Rightarrow> exn + (int \<rightharpoonup> string)" where
  "process_iter_loop pid_to_path [] = Inr pid_to_path"
| "process_iter_loop pid_to_path (Inl e # procs) =
     (if e = NoSuchProcess \<or> e = AccessDenied \<or> e = ZombieProcess
      then process_iter_loop pid_to_path procs
      else Inl e)"
| "process_iter_loop pid_to_path (Inr proc # procs) =
     (let pid = info_pid proc;
          exe_path = py_or (info_exe proc) (info_name proc)
      in if pid \<noteq> 0 \<and> truthy exe_path
         then process_iter_loop (pid_to_path(pid \<mapsto> the exe_path)) procs
         else process_iter_loop pid_to_path procs)"

definition get_process_path_map :: "(exn + proc_info) list \<Rightarrow> exn + (int \<rightharpoonup> string)" where
  "get_process_path_map procs = process_iter_loop Map.empty procs"

text \<open>
  One item of \<open>psutil.net_connections(kind='tcp')\<close>. An address is an
  \<open>(ip, port)\<close> pair or the empty tuple (\<open>None\<close> here); \<open>status\<close> is one of
  psutil's status strings; \<open>pid\<close> may be \<open>None\<close>.
\<close>

record sconn =
  sconn_laddr :: "(string \<times> int) option"
  sconn_raddr :: "(string \<times> int) option"
  sconn_status :: string
  sconn_pid :: "int option"

definition CONN_ESTABLISHED :: string where
  "CONN_ESTABLISHED = ''ESTABLISHED''"

definition CONN_LISTEN :: string where
  "CONN_LISTEN = ''LISTEN''"

definition fmt_addr :: "string \<times> int \<Rightarrow> string" where
  "fmt_addr a = fst a @ '':'' @ str_int (snd a)"

text \<open>The dictionary appended for each retained connection.\<close>

record connection =
  pid :: jvalue
  status :: string
  local_addr :: string
  remote_addr :: string
  process_path :: string

text \<open>\<open>pid_map.get(pid, "Unknown/System Process")\<close> with an optional key.\<close>

definition pid_map_get :: "(int \<rightharpoonup> string) \<Rightarrow> int option \<Rightarrow> string" where
  "pid_map_get pid_map p =
     (case p of
        None \<Rightarrow> ''Unknown/System Process''
      | Some k \<Rightarrow> (case pid_map k of None \<Rightarrow> ''Unknown/System Process'' | Some path \<Rightarrow> path))"

text \<open>\<open>pid if pid else "N/A"\<close>: \<open>None\<close> and \<open>0\<close> are falsy.\<close>

definition pid_or_na :: "int option \<Rightarrow> jvalue" where
  "pid_or_na p = (case p of None \<Rightarrow> JStr ''N/A'' | Some k \<Rightarrow> if k \<noteq> 0 then JInt k else JStr ''N/A'')"

fun list_active_tcp_connections :: "(int \<rightharpoonup> string) \<Rightarrow> sconn list \<Rightarrow> connection list" where
  "list_active_tcp_connections pid_map [] = []"
| "list_active_tcp_connections pid_map (conn # conns) =
     (if sconn_status conn = CONN_ESTABLISHED \<or> sconn_status conn = CONN_LISTEN then
        (let remote = (case sconn_raddr conn of Some a \<Rightarrow> fmt_addr a | None \<Rightarrow> ''N/A'')
         in if sconn_status conn = CONN_ESTABLISHED \<and> remote = ''N/A''
            then list_active_tcp_connections pid_map conns
            else
              (let p = sconn_pid conn;
                   local = (case sconn_laddr conn of Some a \<Rightarrow> fmt_addr a | None \<Rightarrow> ''N/A'')
               in \<lparr> pid = pid_or_na p,
                     status = sconn_status conn,
                     local_addr = local,
                     remote_addr = remote,
                     process_path = pid_map_get pid_map p \<rparr>
                  # list_active_tcp_connections pid_map conns))
      else list_active_tcp_connections pid_map conns)"

section \<open>Event emitter and polling loop (backend/network_monitor.py)\<close>

text \<open>\<open>os.path.basename\<close> of \<open>posixpath\<close>: what follows the last slash.\<close>

definition basename :: "string \<Rightarrow> string" where
  "basename p = rev (takeWhile (\<lambda>c. c \<noteq> CHR ''/'') (rev p))"

text \<open>The payload built in the main loop for one retained connection.\<close>

definition make_payload :: "string \<Rightarrow> string \<Rightarrow> connection \<Rightarrow> dict" where
  "make_payload hostname ts conn =
     (let path = process_path conn;
          proc_name = (if path \<noteq> [] then basename path else [])
      in [(''host'', JStr hostname),
          (''timestamp'', JStr ts),
          (''process'', JStr proc_name),
          (''pid'', pid conn),
          (''local'', JStr (local_addr conn)),
          (''remote'', JStr (remote_addr conn)),
          (''status'', JStr (status conn)),
          (''exe_path'', JStr path),
          (''label'', JStr ''Normal''),
          (''score'', JNull)])"

text \<open>
  The network as the emitter sees it: the outcome of the \<open>k\<close>-th call of
  \<open>requests.post\<close> of the run, which either returns a response (of any HTTP status)
  or raises. The only state \<open>send_event\<close> touches is the sequence of posts
  attempted so far.
\<close>

datatype post_outcome = Responded | Raised exn

type_synonym network = "nat \<Rightarrow> dict \<Rightarrow> post_outcome"

definition send_event :: "network \<Rightarrow> dict \<Rightarrow> dict list \<Rightarrow> (exn + unit) \<times> dict list" where
  "send_event net payload posted =
     (case net (length posted) payload of
        Responded \<Rightarrow> (Inr (), posted @ [payload])
      | Raised e \<Rightarrow>
          (if is_Exception e then (Inr (), posted @ [payload])
           else (Inl e, posted @ [payload])))"

text \<open>The \<open>for conn in connections\<close> loop of the main block.\<close>

fun send_all :: "network \<Rightarrow> string \<Rightarrow> string \<Rightarrow> connection list \<Rightarrow> dict list \<Rightarrow> (exn + unit) \<times> dict list" where
  "send_all net hostname ts [] posted = (Inr (), posted)"
| "send_all net hostname ts (conn # conns) posted =
     (case send_event net (make_payload hostname ts conn) posted of
        (Inl e, posted') \<Rightarrow> (Inl e, posted')
      | (Inr _, posted') \<Rightarrow> send_all net hostname ts conns posted')"

text \<open>
  What the operating system and the libraries answer during one iteration of the
  polling loop: the process table, the connection table (or the exception
  \<open>psutil.net_connections\<close> raises), whether printing the report raises, the host
  name, the clock, and whether \<open>time.sleep\<close> is interrupted.
\<close>

record cycle =
  procs :: "(exn + proc_info) list"
  net_conns :: "exn + sconn list"
  report_raises :: "exn option"
  gethostname :: string
  utcnow :: string
  sleep_raises :: "exn option"

text \<open>The body of the \<open>try\<close> block.\<close>

definition cycle_body :: "network \<Rightarrow> cycle \<Rightarrow> dict list \<Rightarrow> (exn + unit) \<times> dict list" where
  "cycle_body net c posted =
     (case get_process_path_map (procs c) of
        Inl e \<Rightarrow> (Inl e, posted)
      | Inr pid_map \<Rightarrow>
          (case net_conns c of
             Inl e \<Rightarrow> (Inl e, posted)
           | Inr conns \<Rightarrow>
               (let connections = list_active_tcp_connections pid_map conns
                in case report_raises c of
                     Some e \<Rightarrow> (Inl e, posted)
                   | None \<Rightarrow>
                       (case send_all net (gethostname c) (utcnow c) connections posted of
                          (Inl e, posted') \<Rightarrow> (Inl e, posted')
                        | (Inr _, posted') \<Rightarrow>
                            (case sleep_raises c of
                               Some e \<Rightarrow> (Inl e, posted')
                             | None \<Rightarrow> (Inr (), posted'))))))"

text \<open>
  The \<open>while True\<close> loop, run against a finite schedule of iterations. It ends by
  one of the two handlers (both \<open>break\<close>) or by an exception neither handler
  catches; \<open>Running\<close> says that the schedule is used up and the loop is still
  going. The counter is \<open>report_count\<close>.
\<close>

datatype stop_reason = StoppedByUser | UnexpectedError exn | Uncaught exn

datatype loop_result = Stopped stop_reason nat "dict list" | Running nat "dict list"

fun monitor_loop :: "network \<Rightarrow> cycle list \<Rightarrow> nat \<Rightarrow> dict list \<Rightarrow> loop_result" where
  "monitor_loop net [] report_count posted = Running report_count posted"
| "monitor_loop net (c # cs) report_count posted =
     (case cycle_body net c posted of
        (Inr _, posted') \<Rightarrow> monitor_loop net cs (report_count + 1) posted'
      | (Inl e, posted') \<Rightarrow>
          (if e = KeyboardInterrupt then Stopped StoppedByUser report_count posted'
           else if is_Exception e then Stopped (UnexpectedError e) report_count posted'
           else Stopped (Uncaught e) report_count posted'))"

section \<open>Ingestion and broadcast hub (backend/server.py)\<close>

text \<open>
  A WebSocket object is known by its identity. \<open>connected_clients\<close> is a Python
  set; the order in which a \<open>for\<close> loop visits it is not fixed by the language,
  so the loop takes it as a list \<open>order\<close>, an enumeration of the set as it is when
  the loop starts. \<open>send\<close> gives the outcome of \<open>await ws.send_json(msg)\<close>:
  \<open>None\<close> when it returns, \<open>Some e\<close> when it raises \<open>e\<close>. The list of delivery
  attempts is kept to say who was tried.
\<close>

type_synonym ws = nat

type_synonym sender = "ws \<Rightarrow> jvalue \<Rightarrow> exn option"

definition event_message :: "dict \<Rightarrow> jvalue" where
  "event_message data = JDict [(''type'', JStr ''event''), (''payload'', JDict data)]"

text \<open>\<open>set.discard\<close> never raises; \<open>set.remove\<close> raises \<open>KeyError\<close> on a missing element.\<close>

definition discard :: "ws \<Rightarrow> ws set \<Rightarrow> ws set" where
  "discard w clients = clients - {w}"

definition remove_elem :: "ws \<Rightarrow> ws set \<Rightarrow> exn + ws set" where
  "remove_elem w clients = (if w \<in> clients then Inr (clients - {w}) else Inl KeyError)"

text \<open>
  The loop of \<open>broadcast_event\<close> awaits inside an iteration over the live set. The
  event loop runs other coroutines only while \<open>broadcast_event\<close> is suspended in
  \<open>await ws.send_json\<close>. What such a coroutine may do to the registry: the \<open>add\<close>
  of an attaching endpoint, the \<open>remove\<close> of a disconnecting one (which leaves the
  set alone and raises in that coroutine when the socket is gone), the \<open>discard\<close>
  of another broadcast. The schedule \<open>sched\<close> names at most one such operation for
  each suspension, in order; the empty schedule is a broadcast during which no
  other coroutine runs. A set iterator remembers the size of the set when the loop
  starts and compares it on every \<open>next\<close>, the final one included; a different
  size raises \<open>RuntimeError\<close> (set changed size during iteration). The bare
  \<open>except\<close> wraps the send only, so that error leaves \<open>broadcast_event\<close> before
  the removal loop, and \<open>receive_event\<close> does not catch it either.
\<close>

datatype reg_event = Attach ws | Detach ws | Discard ws

fun apply_event :: "reg_event option \<Rightarrow> ws set \<Rightarrow> ws set" where
  "apply_event None clients = clients"
| "apply_event (Some (Attach w)) clients = insert w clients"
| "apply_event (Some (Detach w)) clients = clients - {w}"
| "apply_event (Some (Discard w)) clients = clients - {w}"

fun next_event :: "reg_event option list \<Rightarrow> reg_event option" where
  "next_event [] = None"
| "next_event (ev # sched) = ev"

text \<open>
  The first loop: \<open>used\<close> is the size the iterator remembers, \<open>order\<close> what it has
  still to visit. Whatever the send raises is caught and the socket noted in
  \<open>remove_list\<close>.
\<close>

fun send_loop ::
  "sender \<Rightarrow> jvalue \<Rightarrow> nat \<Rightarrow> ws list \<Rightarrow> reg_event option list \<Rightarrow> ws set \<Rightarrow> ws list \<Rightarrow> (ws \<times> jvalue) list
     \<Rightarrow> (exn + ws list) \<times> ws set \<times> (ws \<times> jvalue) list" where
  "send_loop send msg used [] sched clients remove_list attempts =
     (if card clients \<noteq> used then (Inl RuntimeError, clients, attempts)
      else (Inr remove_list, clients, attempts))"
| "send_loop send msg used (w # rest) sched clients remove_list attempts =
     (if card clients \<noteq> used then (Inl RuntimeError, clients, attempts)
      else
        (let clients' = apply_event (next_event sched) clients;
             remove_list' = (case send w msg of None \<Rightarrow> remove_list | Some e \<Rightarrow> remove_list @ [w])
         in send_loop send msg used rest (tl sched) clients' remove_list'
              (attempts @ [(w, msg)])))"

text \<open>
  \<open>broadcast_event\<close>: the result (\<open>Inl\<close> an exception leaving the function), the
  registry afterwards and the attempts made. The second loop has no \<open>await\<close>.
\<close>

definition broadcast_event ::
  "sender \<Rightarrow> ws list \<Rightarrow> reg_event option list \<Rightarrow> dict \<Rightarrow> ws set \<Rightarrow> (exn + unit) \<times> ws set \<times> (ws \<times> jvalue) list" where
  "broadcast_event send order sched data connected_clients =
     (case send_loop send (event_message data) (card connected_clients) order sched
             connected_clients [] [] of
        (Inl e, clients', attempts) \<Rightarrow> (Inl e, clients', attempts)
      | (Inr remove_list, clients', attempts) \<Rightarrow> (Inr (), fold discard remove_list clients', attempts))"

text \<open>
  \<open>receive_event\<close>: the handler's result (\<open>Inr\<close> the response body, \<open>Inl\<close> an
  exception leaving the handler), the registry afterwards and the attempts made.
\<close>

definition ack_ok :: dict where
  "ack_ok = [(''status'', JStr ''ok'')]"

definition receive_event ::
  "sender \<Rightarrow> ws list \<Rightarrow> reg_event option list \<Rightarrow> dict \<Rightarrow> ws set \<Rightarrow> (exn + dict) \<times> ws set \<times> (ws \<times> jvalue) list" where
  "receive_event send order sched payload connected_clients =
     (case broadcast_event send order sched payload connected_clients of
        (Inl e, clients', attempts) \<Rightarrow> (Inl e, clients', attempts)
      | (Inr _, clients', attempts) \<Rightarrow> (Inr ack_ok, clients', attempts))"

text \<open>
  \<open>websocket_endpoint\<close>: after \<open>accept\<close> the socket is added; the receive loop
  runs until \<open>receive_text\<close> raises \<open>e\<close>. Only \<open>WebSocketDisconnect\<close> is
  handled, by \<open>connected_clients.remove\<close>.
\<close>

definition websocket_attach :: "ws \<Rightarrow> ws set \<Rightarrow> ws set" where
  "websocket_attach w connected_clients = insert w connected_clients"

definition websocket_loop_exit :: "exn \<Rightarrow> ws \<Rightarrow> ws set \<Rightarrow> (exn + unit) \<times> ws set" where
  "websocket_loop_exit e w connected_clients =
     (if e = WebSocketDisconnect then
        (case remove_elem w connected_clients of
           Inl k \<Rightarrow> (Inl k, connected_clients)
         | Inr clients' \<Rightarrow> (Inr (), clients'))
      else (Inl e, connected_clients))"

text \<open>The keys of the payload the emitter builds.\<close>

definition event_fields :: "string list" where
  "event_fields = [''host'', ''timestamp'', ''process'', ''pid'', ''local'', ''remote'',
                   ''status'', ''exe_path'', ''label'', ''score'']"

definition missing_event_fields :: "dict \<Rightarrow> bool" where
  "missing_event_fields payload = list_ex (\<lambda>k. map_of payload k = None) event_fields"

section \<open>Scoring endpoint (backend/server.py)\<close>








section \<open>Derived views and sample inputs\<close>

text \<open>
  The dictionary \<open>list_active_tcp_connections\<close> appends for a connection, and the
  test under which it appends one: the two \<open>if\<close>s of the loop body read together.
  \<open>list_active_filter\<close> below proves that the loop is the map of the first over the
  filter of the second.
\<close>

definition entry_of :: "(int \<rightharpoonup> string) \<Rightarrow> sconn \<Rightarrow> connection" where
  "entry_of pid_map conn =
     \<lparr> pid = pid_or_na (sconn_pid conn),
       status = sconn_status conn,
       local_addr = (case sconn_laddr conn of Some a \<Rightarrow> fmt_addr a | None \<Rightarrow> ''N/A''),
       remote_addr = (case sconn_raddr conn of Some a \<Rightarrow> fmt_addr a | None \<Rightarrow> ''N/A''),
       process_path = pid_map_get pid_map (sconn_pid conn) \<rparr>"

definition retained :: "sconn \<Rightarrow> bool" where
  "retained conn \<longleftrightarrow>
     (sconn_status conn = CONN_ESTABLISHED \<or> sconn_status conn = CONN_LISTEN) \<and>
     \<not> (sconn_status conn = CONN_ESTABLISHED \<and> sconn_raddr conn = None)"

text \<open>
  Connections as psutil reports them: a listening socket with no owner exposed, an
  established one whose remote address is missing, and one in \<open>TIME_WAIT\<close>; and
  the dictionary built for the first.
\<close>

definition conn_listen_nopid :: sconn where
  "conn_listen_nopid = \<lparr> sconn_laddr = Some (''0.0.0.0'', 22), sconn_raddr = None,
                         sconn_status = ''LISTEN'', sconn_pid = None \<rparr>"

definition conn_est_noremote :: sconn where
  "conn_est_noremote = \<lparr> sconn_laddr = Some (''10.0.0.5'', 50000), sconn_raddr = None,
                         sconn_status = ''ESTABLISHED'', sconn_pid = Some 7 \<rparr>"

definition conn_time_wait :: sconn where
  "conn_time_wait = \<lparr> sconn_laddr = Some (''10.0.0.5'', 50001), sconn_raddr = Some (''10.0.0.9'', 80),
                         sconn_status = ''TIME_WAIT'', sconn_pid = None \<rparr>"

definition listen_entry :: connection where
  "listen_entry = \<lparr> pid = JStr ''N/A'', status = ''LISTEN'', local_addr = ''0.0.0.0:22'',
        remote_addr = ''N/A'', process_path = ''Unknown/System Process'' \<rparr>"

text \<open>
  Networks and polling cycles: a hub that cannot be reached, one that answers, an
  iteration in which everything works, and one in which reading the connection table
  is denied. \<open>benign\<close> is an outcome of \<open>requests.post\<close> that \<open>send_event\<close>
  absorbs: a response, or an exception below \<open>Exception\<close>.
\<close>

definition net_down :: network where
  "net_down k payload = Raised ConnectionError"

definition net_up :: network where
  "net_up k payload = Responded"

fun benign :: "post_outcome \<Rightarrow> bool" where
  "benign Responded = True"
| "benign (Raised e) = is_Exception e"


definition quiet_cycle :: cycle where
  "quiet_cycle = \<lparr> procs = [], net_conns = Inr [conn_listen_nopid], report_raises = None,
                   gethostname = ''host1'', utcnow = ''2024-01-01T00:00:00Z'',
                   sleep_raises = None \<rparr>"


text \<open>
  Subscribers: all sends arrive, only the send to socket \<open>1\<close> raises, only the
  send to socket \<open>2\<close> raises.
\<close>

definition all_delivered :: sender where
  "all_delivered w msg = None"

definition first_closed :: sender where
  "first_closed w msg = (if w = 1 then Some (OtherException ''closed'') else None)"

definition second_closed :: sender where
  "second_closed w msg = (if w = 2 then Some (OtherException ''closed'') else None)"


section \<open>Properties of the connection enumerator\<close>

text \<open>
  A formatted address contains a colon, so it is never the placeholder \<open>N/A\<close>:
  the remote string is \<open>N/A\<close> exactly when psutil gave no remote address.
\<close>

lemma fmt_addr_not_na: "fmt_addr a \<noteq> ''N/A''"
proof
  assume "fmt_addr a = ''N/A''"
  then have "set (fmt_addr a) = set ''N/A''" by simp
  moreover have "CHR '':'' \<in> set (fmt_addr a)" by (simp add: fmt_addr_def)
  ultimately show False by simp
qed

lemma remote_na_iff: "(case r of Some a \<Rightarrow> fmt_addr a | None \<Rightarrow> ''N/A'') = ''N/A'' \<longleftrightarrow> r = None"
  using fmt_addr_not_na by (cases r) simp_all

lemma list_active_step:
  "list_active_tcp_connections pid_map (conn # conns) =
     (if retained conn then entry_of pid_map conn # list_active_tcp_connections pid_map conns
      else list_active_tcp_connections pid_map conns)"
  unfolding list_active_tcp_connections.simps retained_def entry_of_def Let_def remote_na_iff
  by simp

lemma list_active_filter:
  "list_active_tcp_connections pid_map conns = map (entry_of pid_map) (filter retained conns)"
  by (induction conns)
     (simp_all del: list_active_tcp_connections.simps
               add: list_active_step list_active_tcp_connections.simps(1))

lemma retained_origin:
  "c \<in> set (list_active_tcp_connections pid_map conns) \<Longrightarrow>
   \<exists>conn \<in> set conns. retained conn \<and> c = entry_of pid_map conn"
  by (auto simp: list_active_filter)

lemma sample_enumeration:
  "list_active_tcp_connections Map.empty [conn_est_noremote, conn_time_wait, conn_listen_nopid] =
     [listen_entry]"
  by (simp add: conn_est_noremote_def conn_time_wait_def conn_listen_nopid_def CONN_ESTABLISHED_def
        CONN_LISTEN_def pid_or_na_def pid_map_get_def fmt_addr_def str_int_def digit_def Let_def
        listen_entry_def)

lemma quiet_cycle_conns:
  "list_active_tcp_connections Map.empty [conn_listen_nopid] = [listen_entry]"
  by (simp add: conn_listen_nopid_def CONN_ESTABLISHED_def
        CONN_LISTEN_def pid_or_na_def pid_map_get_def fmt_addr_def str_int_def digit_def Let_def
        listen_entry_def)

text \<open>
  Claim C2. Every connection in the output of \<open>list_active_tcp_connections\<close> has
  status \<open>ESTABLISHED\<close> or \<open>LISTEN\<close>; none is \<open>ESTABLISHED\<close> with the remote
  placeholder \<open>N/A\<close>, and the connection it was built from is not \<open>ESTABLISHED\<close>
  without a remote address; and when the owning process id is \<open>None\<close> or is not a
  key of the process map, the executable path is the string
  \<open>Unknown/System Process\<close> (the field is a string, never a null).
\<close>

theorem retained_connections_ok:
  assumes "c \<in> set (list_active_tcp_connections pid_map conns)"
  shows "(status c = ''ESTABLISHED'' \<or> status c = ''LISTEN'') \<and>
         \<not> (status c = ''ESTABLISHED'' \<and> remote_addr c = ''N/A'') \<and>
         (\<exists>conn \<in> set conns.
            c = entry_of pid_map conn \<and>
            \<not> (sconn_status conn = ''ESTABLISHED'' \<and> sconn_raddr conn = None) \<and>
            ((case sconn_pid conn of None \<Rightarrow> True | Some k \<Rightarrow> pid_map k = None)
               \<longrightarrow> process_path c = ''Unknown/System Process''))"
proof -
  from assms obtain conn where conn: "conn \<in> set conns" and ret: "retained conn"
    and c: "c = entry_of pid_map conn"
    by (auto simp: list_active_filter)
  have st: "status c = sconn_status conn" and ra: "remote_addr c = (case sconn_raddr conn of Some a \<Rightarrow> fmt_addr a | None \<Rightarrow> ''N/A'')"
    and pp: "process_path c = pid_map_get pid_map (sconn_pid conn)"
    using c by (simp_all add: entry_of_def)
  have s1: "status c = ''ESTABLISHED'' \<or> status c = ''LISTEN''"
    using ret st by (simp add: retained_def CONN_ESTABLISHED_def CONN_LISTEN_def)
  have s2: "\<not> (sconn_status conn = ''ESTABLISHED'' \<and> sconn_raddr conn = None)"
    using ret by (simp add: retained_def CONN_ESTABLISHED_def)
  have s3: "\<not> (status c = ''ESTABLISHED'' \<and> remote_addr c = ''N/A'')"
    using s2 st ra remote_na_iff [of "sconn_raddr conn"] by simp
  have s4: "(case sconn_pid conn of None \<Rightarrow> True | Some k \<Rightarrow> pid_map k = None)
               \<longrightarrow> process_path c = ''Unknown/System Process''"
    using pp by (simp add: pid_map_get_def split: option.splits)
  show ?thesis using conn c s1 s2 s3 s4 by blast
qed

theorem retained_connections_ok_witness:
  "listen_entry \<in> set (list_active_tcp_connections Map.empty
                          [conn_est_noremote, conn_time_wait, conn_listen_nopid]) \<and>
   (status listen_entry = ''ESTABLISHED'' \<or> status listen_entry = ''LISTEN'') \<and>
   \<not> (status listen_entry = ''ESTABLISHED'' \<and> remote_addr listen_entry = ''N/A'')"
proof -
  have mem: "listen_entry \<in> set (list_active_tcp_connections Map.empty
                          [conn_est_noremote, conn_time_wait, conn_listen_nopid])"
    unfolding sample_enumeration by simp
  show ?thesis using mem retained_connections_ok [OF mem] by blast
qed

section \<open>Properties of the event emitter and the polling loop\<close>

text \<open>
  Claim C8 as stated: a connection for which the operating system exposed no process
  id yields an event without a process id. The code puts the string \<open>N/A\<close> in
  the field instead: for the listening socket with \<open>pid = None\<close> the payload's
  \<open>pid\<close> entry is present and holds \<open>"N/A"\<close>.
\<close>

theorem event_pid_counterexample:
  "sconn_pid conn_listen_nopid = None \<and>
   map (\<lambda>c. map_of (make_payload ''host1'' ''2024-01-01T00:00:00Z'' c) ''pid'')
       (list_active_tcp_connections Map.empty [conn_listen_nopid]) = [Some (JStr ''N/A'')]"
  unfolding quiet_cycle_conns
  by (simp add: conn_listen_nopid_def make_payload_def listen_entry_def Let_def)

text \<open>
  Claim C8, amended. The \<open>pid\<close> field of every event is present: it is the
  process id when psutil exposed a non-zero one, and the placeholder string \<open>N/A\<close>
  when it exposed none or \<open>0\<close>.
\<close>

theorem event_pid_placeholder:
  assumes "c \<in> set (list_active_tcp_connections pid_map conns)"
  shows "\<exists>conn \<in> set conns.
           c = entry_of pid_map conn \<and>
           map_of (make_payload hostname ts c) ''pid'' =
             Some (case sconn_pid conn of
                     None \<Rightarrow> JStr ''N/A''
                   | Some k \<Rightarrow> if k = 0 then JStr ''N/A'' else JInt k)"
proof -
  from retained_origin [OF assms] obtain conn where
    conn: "conn \<in> set conns" and c: "c = entry_of pid_map conn" by blast
  have "map_of (make_payload hostname ts c) ''pid'' = Some (pid c)"
    by (simp add: make_payload_def Let_def)
  moreover have "pid c = (case sconn_pid conn of
                     None \<Rightarrow> JStr ''N/A''
                   | Some k \<Rightarrow> if k = 0 then JStr ''N/A'' else JInt k)"
    using c by (simp add: entry_of_def pid_or_na_def split: option.splits)
  ultimately show ?thesis using conn c by auto
qed

theorem event_pid_placeholder_witness:
  "listen_entry \<in> set (list_active_tcp_connections Map.empty [conn_listen_nopid]) \<and>
   (\<exists>conn \<in> set [conn_listen_nopid].
           listen_entry = entry_of Map.empty conn \<and>
           map_of (make_payload ''host1'' ''2024-01-01T00:00:00Z'' listen_entry) ''pid'' =
             Some (case sconn_pid conn of
                     None \<Rightarrow> JStr ''N/A''
                   | Some k \<Rightarrow> if k = 0 then JStr ''N/A'' else JInt k))"
proof -
  have mem: "listen_entry \<in> set (list_active_tcp_connections Map.empty [conn_listen_nopid])"
    unfolding quiet_cycle_conns by simp
  show ?thesis
    using mem event_pid_placeholder [OF mem, of "''host1''" "''2024-01-01T00:00:00Z''"]
    by blast
qed

lemma send_event_benign:
  "benign (net (length posted) payload) \<Longrightarrow>
   send_event net payload posted = (Inr (), posted @ [payload])"
  by (cases "net (length posted) payload") (simp_all add: send_event_def)

lemma send_all_benign:
  "\<forall>k p. benign (net k p) \<Longrightarrow>
   send_all net hostname ts conns posted =
     (Inr (), posted @ map (make_payload hostname ts) conns)"
  by (induction conns arbitrary: posted) (simp_all add: send_event_benign)

lemma cycle_body_benign:
  assumes "\<forall>k p. benign (net k p)"
    and "get_process_path_map (procs c) = Inr pid_map" and "net_conns c = Inr conns"
    and "report_raises c = None" and "sleep_raises c = None"
  shows "cycle_body net c posted =
           (Inr (), posted @ map (make_payload (gethostname c) (utcnow c))
                               (list_active_tcp_connections pid_map conns))"
  using assms(2-5) by (simp add: cycle_body_def send_all_benign [OF assms(1)])

text \<open>
  Claim C3. When \<open>requests.post\<close> raises an exception \<open>e\<close> below
  \<open>Exception\<close> (timeout, connection refused, DNS failure, any other), \<open>send_event\<close>
  returns normally; the post was attempted exactly once and nothing else is kept (the
  only state is the sequence of attempts, which grows by this one). And in an
  iteration whose enumeration, report and sleep do not raise, with sends that fail
  in this way or succeed, the loop goes on to the next iteration with
  \<open>report_count\<close> increased, one post attempted per retained connection.
\<close>

theorem failed_send_is_swallowed:
  assumes "net (length posted) payload = Raised e" and "is_Exception e"
    and "\<forall>k p. benign (net k p)"
    and "get_process_path_map (procs c) = Inr pid_map" and "net_conns c = Inr conns"
    and "report_raises c = None" and "sleep_raises c = None"
  shows "send_event net payload posted = (Inr (), posted @ [payload]) \<and>
         monitor_loop net (c # cs) report_count posted =
           monitor_loop net cs (report_count + 1)
             (posted @ map (make_payload (gethostname c) (utcnow c))
                           (list_active_tcp_connections pid_map conns))"
proof -
  have "benign (net (length posted) payload)" using assms(1,2) by simp
  then have a: "send_event net payload posted = (Inr (), posted @ [payload])"
    by (rule send_event_benign)
  have b: "cycle_body net c posted =
           (Inr (), posted @ map (make_payload (gethostname c) (utcnow c))
                               (list_active_tcp_connections pid_map conns))"
    by (rule cycle_body_benign [OF assms(3-7)])
  show ?thesis using a b by simp
qed

theorem failed_send_is_swallowed_witness:
  "net_down (length ([]::dict list)) [] = Raised ConnectionError \<and> is_Exception ConnectionError \<and>
   (\<forall>k p. benign (net_down k p)) \<and>
   send_event net_down [] [] = (Inr (), [[]]) \<and>
   monitor_loop net_down [quiet_cycle] 0 [] =
     Running 1 [make_payload ''host1'' ''2024-01-01T00:00:00Z'' listen_entry]"
proof -
  have a: "net_down (length ([]::dict list)) [] = Raised ConnectionError" by (simp add: net_down_def)
  have b: "is_Exception ConnectionError" by simp
  have c: "\<forall>k p. benign (net_down k p)" by (simp add: net_down_def)
  have d: "get_process_path_map (procs quiet_cycle) = Inr Map.empty"
    by (simp add: quiet_cycle_def get_process_path_map_def)
  have e: "net_conns quiet_cycle = Inr [conn_listen_nopid]" by (simp add: quiet_cycle_def)
  have f: "report_raises quiet_cycle = None" and g: "sleep_raises quiet_cycle = None"
    by (simp_all add: quiet_cycle_def)
  have h: "gethostname quiet_cycle = ''host1''" "utcnow quiet_cycle = ''2024-01-01T00:00:00Z''"
    by (simp_all add: quiet_cycle_def)
  note t = failed_send_is_swallowed [where net = net_down and posted = "[]" and payload = "[]"
            and c = quiet_cycle and cs = "[]" and report_count = 0, OF a b c d e f g]
  have s: "send_event net_down [] [] = (Inr (), [[]])"
    using t [THEN conjunct1] by simp
  have "monitor_loop net_down [quiet_cycle] 0 [] =
          monitor_loop net_down [] (0 + 1)
            ([] @ map (make_payload ''host1'' ''2024-01-01T00:00:00Z'') [listen_entry])"
    using t [THEN conjunct2] unfolding h quiet_cycle_conns .
  then have m: "monitor_loop net_down [quiet_cycle] 0 [] =
                  Running 1 [make_payload ''host1'' ''2024-01-01T00:00:00Z'' listen_entry]"
    by simp
  show ?thesis using a b c s m by blast
qed







section \<open>Properties of the hub\<close>

lemma fold_discard: "fold discard ws clients = clients - set ws"
  by (induction ws arbitrary: clients) (auto simp: discard_def)

text \<open>When the first loop ends normally it has tried every subscriber and noted every
  failed send.\<close>

lemma send_loop_returns:
  "send_loop send msg used order sched clients remove_list attempts = (Inr rl, clients', att) \<Longrightarrow>
   rl = remove_list @ filter (\<lambda>w. send w msg \<noteq> None) order \<and>
   att = attempts @ map (\<lambda>w. (w, msg)) order"
proof (induction order arbitrary: sched clients remove_list attempts)
  case Nil
  then show ?case by (simp split: if_splits)
next
  case (Cons w rest)
  from Cons.prems have ok: "card clients = used" by (simp split: if_splits)
  from Cons.prems ok have
    "send_loop send msg used rest (tl sched) (apply_event (next_event sched) clients)
       (case send w msg of None \<Rightarrow> remove_list | Some e \<Rightarrow> remove_list @ [w])
       (attempts @ [(w, msg)]) = (Inr rl, clients', att)"
    by (simp add: Let_def)
  from Cons.IH [OF this] show ?case by (cases "send w msg") simp_all
qed

text \<open>A broadcast during which the registry is left alone ends normally.\<close>

lemma send_loop_quiet:
  assumes "\<forall>ev \<in> set sched. apply_event ev clients = clients" and "card clients = used"
  shows "send_loop send msg used order sched clients remove_list attempts =
           (Inr (remove_list @ filter (\<lambda>w. send w msg \<noteq> None) order), clients,
            attempts @ map (\<lambda>w. (w, msg)) order)"
  using assms
proof (induction order arbitrary: sched remove_list attempts)
  case Nil
  then show ?case by simp
next
  case (Cons w rest)
  have q: "apply_event (next_event sched) clients = clients"
    using Cons.prems(1) by (cases sched) simp_all
  have t: "\<forall>ev \<in> set (tl sched). apply_event ev clients = clients"
    using Cons.prems(1) by (cases sched) simp_all
  show ?case
    using Cons.IH [OF t Cons.prems(2)] q Cons.prems(2)
    by (simp add: Let_def split: option.splits)
qed

lemma broadcast_event_quiet:
  assumes "\<forall>ev \<in> set sched. apply_event ev clients = clients"
  shows "broadcast_event send order sched data clients =
           (Inr (), clients - {w \<in> set order. send w (event_message data) \<noteq> None},
            map (\<lambda>w. (w, event_message data)) order)"
  using send_loop_quiet [OF assms refl, of send "event_message data" order "[]" "[]"]
  by (simp add: broadcast_event_def fold_discard)

lemma broadcast_raises_on_size_change:
  assumes "card (apply_event ev clients) \<noteq> card clients"
  shows "broadcast_event send (w # rest) (ev # sched) data clients =
           (Inl RuntimeError, apply_event ev clients, [(w, event_message data)])"
  using assms by (cases rest) (simp_all add: broadcast_event_def Let_def)

text \<open>Every attempt made carries the same message, whether the loop ends or raises.\<close>

lemma send_loop_attempts:
  "\<exists>n. snd (snd (send_loop send msg used order sched clients remove_list attempts)) =
         attempts @ map (\<lambda>w. (w, msg)) (take n order)"
proof (induction order arbitrary: sched clients remove_list attempts)
  case Nil
  then show ?case by simp
next
  case (Cons w rest)
  show ?case
  proof (cases "card clients = used")
    case False
    then have "snd (snd (send_loop send msg used (w # rest) sched clients remove_list attempts)) =
                 attempts @ map (\<lambda>w. (w, msg)) (take 0 (w # rest))"
      by simp
    then show ?thesis by blast
  next
    case True
    from Cons.IH [of "tl sched" "apply_event (next_event sched) clients"
                     "case send w msg of None \<Rightarrow> remove_list | Some e \<Rightarrow> remove_list @ [w]"
                     "attempts @ [(w, msg)]"]
    obtain n where
      "snd (snd (send_loop send msg used rest (tl sched) (apply_event (next_event sched) clients)
                  (case send w msg of None \<Rightarrow> remove_list | Some e \<Rightarrow> remove_list @ [w])
                  (attempts @ [(w, msg)]))) =
         (attempts @ [(w, msg)]) @ map (\<lambda>w. (w, msg)) (take n rest)"
      by blast
    then have "snd (snd (send_loop send msg used (w # rest) sched clients remove_list attempts)) =
                 attempts @ map (\<lambda>w. (w, msg)) (take (Suc n) (w # rest))"
      using True by (simp add: Let_def)
    then show ?thesis by blast
  qed
qed

text \<open>Whether the loop ends or raises depends on the registry and the schedule only.\<close>

lemma send_loop_outcome:
  "map_sum id (\<lambda>_. ()) (fst (send_loop send msg used order sched clients remove_list attempts)) =
   map_sum id (\<lambda>_. ()) (fst (send_loop send' msg' used order sched clients remove_list' attempts'))"
proof (induction order arbitrary: sched clients remove_list attempts remove_list' attempts')
  case Nil
  then show ?case by simp
next
  case (Cons w rest)
  show ?case
  proof (cases "card clients = used")
    case False
    then show ?thesis by simp
  next
    case True
    then show ?thesis
      using Cons.IH [of "tl sched" "apply_event (next_event sched) clients"]
      by (simp add: Let_def)
  qed
qed

lemma receive_event_fst:
  "fst (receive_event send order sched payload clients) =
     map_sum id (\<lambda>_. ack_ok)
       (map_sum id (\<lambda>_. ())
          (fst (send_loop send (event_message payload) (card clients) order sched clients [] [])))"
  by (simp add: receive_event_def broadcast_event_def split: prod.splits sum.splits)

lemma receive_event_attempts:
  "snd (snd (receive_event send order sched payload clients)) =
     snd (snd (send_loop send (event_message payload) (card clients) order sched clients [] []))"
  by (simp add: receive_event_def broadcast_event_def split: prod.splits sum.splits)

text \<open>
  Claim C1, at an input where the code breaks it (the defect is the one of claim C9:
  the iteration over the live set is not protected from other coroutines).
  Subscribers \<open>1\<close> and \<open>2\<close> are registered and the send to \<open>1\<close> fails. When the
  endpoint of \<open>1\<close> handles its disconnect while the broadcast is suspended in that
  send, the iteration raises \<open>RuntimeError\<close>: the call gives no acknowledgment and
  no delivery to \<open>2\<close> is attempted. When instead a socket \<open>3\<close> attaches during that
  send, the iteration raises as well and the failed subscriber \<open>1\<close> stays in the
  registry.
\<close>

theorem ingest_raises_on_concurrent_change:
  "receive_event first_closed [1, 2] [Some (Detach 1)] [] {1, 2} =
     (Inl RuntimeError, {2}, [(1, event_message [])]) \<and>
   receive_event first_closed [1, 2] [Some (Attach 3)] [] {1, 2} =
     (Inl RuntimeError, {1, 2, 3}, [(1, event_message [])])"
proof -
  have d: "{1, 2 :: nat} - {1} = {2}" by auto
  have a: "receive_event first_closed [1, 2] [Some (Detach 1)] [] {1, 2} =
     (Inl RuntimeError, {2}, [(1, event_message [])])"
    by (simp add: receive_event_def broadcast_event_def first_closed_def Let_def d)
  have b: "receive_event first_closed [1, 2] [Some (Attach 3)] [] {1, 2} =
     (Inl RuntimeError, {1, 2, 3}, [(1, event_message [])])"
    by (auto simp: receive_event_def broadcast_event_def first_closed_def Let_def)
  show ?thesis using a b by blast
qed

text \<open>
  Claim C5 as stated: a payload that lacks required event fields is rejected with a
  client error and not broadcast. The handler takes any dictionary: the empty one,
  which lacks every field, is broadcast to the subscriber and acknowledged.
\<close>

theorem ingest_no_validation_counterexample:
  "missing_event_fields [] \<and>
   receive_event all_delivered [1] [] [] {1} = (Inr ack_ok, {1}, [(1, event_message [])])"
  by (simp add: missing_event_fields_def event_fields_def receive_event_def broadcast_event_def
        all_delivered_def Let_def discard_def)

text \<open>
  Claim C5, amended. \<open>receive_event\<close> validates nothing and has no client-error
  response: a payload that lacks event fields is handed to the broadcast exactly as
  a complete one is. Whether the call returns or raises is the same for every
  payload (and every behaviour of the sends); every delivery attempted carries
  \<open>{"type": "event", "payload": payload}\<close> with the payload unchanged; and a call
  during which no other coroutine runs returns \<open>{"status": "ok"}\<close> after an
  attempt to every subscriber of the iteration.
\<close>

theorem ingest_broadcasts_any_dict:
  "fst (receive_event send order sched payload connected_clients) =
     fst (receive_event send' order sched payload' connected_clients) \<and>
   (\<exists>n. snd (snd (receive_event send order sched payload connected_clients)) =
          map (\<lambda>w. (w, JDict [(''type'', JStr ''event''), (''payload'', JDict payload)]))
              (take n order)) \<and>
   fst (receive_event send order [] payload connected_clients) = Inr ack_ok \<and>
   snd (snd (receive_event send order [] payload connected_clients)) =
     map (\<lambda>w. (w, JDict [(''type'', JStr ''event''), (''payload'', JDict payload)])) order"
proof -
  have a: "fst (receive_event send order sched payload connected_clients) =
     fst (receive_event send' order sched payload' connected_clients)"
    unfolding receive_event_fst
    using send_loop_outcome [of send "event_message payload" "card connected_clients" order sched
            connected_clients "[]" "[]" send' "event_message payload'" "[]" "[]"]
    by simp
  have b: "\<exists>n. snd (snd (receive_event send order sched payload connected_clients)) =
          map (\<lambda>w. (w, JDict [(''type'', JStr ''event''), (''payload'', JDict payload)]))
              (take n order)"
    unfolding receive_event_attempts
    using send_loop_attempts [of send "event_message payload" "card connected_clients" order sched
            connected_clients "[]" "[]"]
    by (simp add: event_message_def)
  have q: "\<forall>ev \<in> set ([] :: reg_event option list). apply_event ev connected_clients = connected_clients"
    by simp
  have c: "fst (receive_event send order [] payload connected_clients) = Inr ack_ok"
    by (simp add: receive_event_def broadcast_event_quiet [OF q])
  have d: "snd (snd (receive_event send order [] payload connected_clients)) =
     map (\<lambda>w. (w, JDict [(''type'', JStr ''event''), (''payload'', JDict payload)])) order"
    by (simp add: receive_event_def broadcast_event_quiet [OF q] event_message_def)
  show ?thesis using a b c d by blast
qed

text \<open>
  Claim C10. A subscriber whose send failed has been discarded by
  \<open>broadcast_event\<close> whenever the broadcast returns, as it does when no other
  coroutine runs during it; when its endpoint then sees \<open>WebSocketDisconnect\<close>, the
  \<open>remove\<close> raises \<open>KeyError\<close> and the registry stays as it is. For a
  subscriber still in the registry the same path removes it and returns normally.
\<close>

theorem removal_paths_not_idempotent:
  assumes "set order = connected_clients" and "w \<in> connected_clients"
    and "send w (event_message data) = Some e"
  shows "(fst (broadcast_event send order sched data connected_clients) = Inr () \<longrightarrow>
            websocket_loop_exit WebSocketDisconnect w
              (fst (snd (broadcast_event send order sched data connected_clients)))
            = (Inl KeyError, fst (snd (broadcast_event send order sched data connected_clients)))) \<and>
         fst (broadcast_event send order [] data connected_clients) = Inr () \<and>
         websocket_loop_exit WebSocketDisconnect w
              (fst (snd (broadcast_event send order [] data connected_clients)))
            = (Inl KeyError, fst (snd (broadcast_event send order [] data connected_clients))) \<and>
         websocket_loop_exit WebSocketDisconnect w connected_clients
           = (Inr (), connected_clients - {w})"
proof -
  have gone: "w \<notin> fst (snd (broadcast_event send order s data connected_clients))"
    if r: "fst (broadcast_event send order s data connected_clients) = Inr ()" for s
  proof -
    obtain res clients' att where
      sl: "send_loop send (event_message data) (card connected_clients) order s
             connected_clients [] [] = (res, clients', att)"
      by (cases "send_loop send (event_message data) (card connected_clients) order s
             connected_clients [] []") auto
    from r sl obtain rl where res: "res = Inr rl"
      by (cases res) (auto simp: broadcast_event_def)
    from send_loop_returns [OF sl [unfolded res]]
    have "rl = filter (\<lambda>w. send w (event_message data) \<noteq> None) order" by simp
    then have "w \<in> set rl" using assms by auto
    then show ?thesis using sl res by (simp add: broadcast_event_def fold_discard)
  qed
  have key: "websocket_loop_exit WebSocketDisconnect w
              (fst (snd (broadcast_event send order s data connected_clients)))
            = (Inl KeyError, fst (snd (broadcast_event send order s data connected_clients)))"
    if r: "fst (broadcast_event send order s data connected_clients) = Inr ()" for s
    using gone [OF r] by (simp add: websocket_loop_exit_def remove_elem_def)
  have q: "\<forall>ev \<in> set ([] :: reg_event option list). apply_event ev connected_clients = connected_clients"
    by simp
  have ret: "fst (broadcast_event send order [] data connected_clients) = Inr ()"
    by (simp add: broadcast_event_quiet [OF q])
  have present: "websocket_loop_exit WebSocketDisconnect w connected_clients
           = (Inr (), connected_clients - {w})"
    using assms(2) by (simp add: websocket_loop_exit_def remove_elem_def)
  show ?thesis using key ret present by blast
qed

theorem removal_paths_not_idempotent_witness:
  "set [1, 2] = {1, 2 :: nat} \<and> (2::nat) \<in> {1, 2} \<and>
   second_closed 2 (event_message []) = Some (OtherException ''closed'') \<and>
   fst (broadcast_event second_closed [1, 2] [] [] {1, 2}) = Inr () \<and>
   websocket_loop_exit WebSocketDisconnect 2 (fst (snd (broadcast_event second_closed [1, 2] [] [] {1, 2})))
     = (Inl KeyError, {1}) \<and>
   websocket_loop_exit WebSocketDisconnect 2 {1, 2} = (Inr (), {1})"
proof -
  have a: "set [1, 2] = {1, 2 :: nat}" and b: "(2::nat) \<in> {1, 2}"
    and c: "second_closed 2 (event_message []) = Some (OtherException ''closed'')"
    by (simp_all add: second_closed_def)
  have q: "\<forall>ev \<in> set ([] :: reg_event option list). apply_event ev {1, 2 :: nat} = {1, 2}"
    by simp
  have r: "fst (snd (broadcast_event second_closed [1, 2] [] [] {1, 2})) = {1}"
    unfolding broadcast_event_quiet [OF q] by (auto simp: second_closed_def)
  have d: "{1, 2 :: nat} - {2} = {1}" by auto
  note t = removal_paths_not_idempotent
            [where send = second_closed and w = 2 and order = "[1, 2]" and data = "[]"
               and sched = "[]", OF a b c]
  show ?thesis using t a b c r d by simp
qed

text \<open>
  Claim C9, at an input where the code breaks it. Nothing synchronizes the registry
  with the iteration of a broadcast. With one subscriber registered and every send
  arriving, a socket that attaches while the broadcast is suspended in its send
  changes the size of the set; the next step of the iteration raises
  \<open>RuntimeError\<close>, which leaves \<open>broadcast_event\<close> and \<open>receive_event\<close>.
\<close>

theorem broadcast_raises_on_concurrent_attach:
  "broadcast_event all_delivered [1] [Some (Attach 2)] [] {1} =
     (Inl RuntimeError, {1, 2}, [(1, event_message [])]) \<and>
   fst (receive_event all_delivered [1] [Some (Attach 2)] [] {1}) = Inl RuntimeError"
  by (simp add: receive_event_def broadcast_event_def all_delivered_def insert_commute)

section \<open>Properties of the scoring endpoint\<close>






end
